theory Spec2Isabelle
  imports Main "HOL-Library.AList" "HOL-Library.Sublist"
begin

section \<open>Python string primitives\<close>

text \<open>
  Python strings are modelled as \<^typ>\<open>string\<close>, a list of 8-bit characters standing for the
  code points below 256. The helpers below follow \<^verbatim>\<open>str.strip\<close>, \<^verbatim>\<open>str.split\<close>,
  \<^verbatim>\<open>str.lower\<close>, \<^verbatim>\<open>x in s\<close>, \<^verbatim>\<open>int(s)\<close> and \<^verbatim>\<open>str(n)\<close> on that range.
\<close>

definition py_isspace :: "char \<Rightarrow> bool" where
  "py_isspace c = (let n = (of_char c :: nat) in
     (9 \<le> n \<and> n \<le> 13) \<or> (28 \<le> n \<and> n \<le> 32) \<or> n = 133 \<or> n = 160)"

definition py_strip :: "string \<Rightarrow> string" where
  "py_strip s = rev (dropWhile py_isspace (rev (dropWhile py_isspace s)))"

definition py_strip_chars :: "string \<Rightarrow> string \<Rightarrow> string" where
  "py_strip_chars cs s =
     rev (dropWhile (\<lambda>c. c \<in> set cs) (rev (dropWhile (\<lambda>c. c \<in> set cs) s)))"

definition py_lstrip :: "string \<Rightarrow> string" where
  "py_lstrip s = dropWhile py_isspace s"

fun py_split :: "char \<Rightarrow> string \<Rightarrow> string list" where
  "py_split sep [] = [[]]"
| "py_split sep (c # cs) =
     (if c = sep then [] # py_split sep cs
      else (case py_split sep cs of w # ws \<Rightarrow> (c # w) # ws | [] \<Rightarrow> [[c]]))"

definition is_linebreak :: "char \<Rightarrow> bool" where
  "is_linebreak c = (let n = (of_char c :: nat) in
     (10 \<le> n \<and> n \<le> 13) \<or> (28 \<le> n \<and> n \<le> 30) \<or> n = 133)"

fun py_splitlines :: "string \<Rightarrow> string list" where
  "py_splitlines [] = []"
| "py_splitlines (c # cs) =
     (if is_linebreak c then
        (case cs of
           d # ds \<Rightarrow> if c = CHR 0x0D \<and> d = CHR 0x0A then [] # py_splitlines ds
                     else [] # py_splitlines cs
         | [] \<Rightarrow> [[]])
      else (case py_splitlines cs of w # ws \<Rightarrow> (c # w) # ws | [] \<Rightarrow> [[c]]))"

definition py_lower_char :: "char \<Rightarrow> char" where
  "py_lower_char c = (let n = (of_char c :: nat) in
     if (65 \<le> n \<and> n \<le> 90) \<or> (192 \<le> n \<and> n \<le> 222 \<and> n \<noteq> 215)
     then char_of (n + 32) else c)"

definition py_lower :: "string \<Rightarrow> string" where
  "py_lower s = map py_lower_char s"

fun py_contains :: "string \<Rightarrow> string \<Rightarrow> bool" where
  "py_contains [] x = (x = [])"
| "py_contains (c # cs) x = (prefix x (c # cs) \<or> py_contains cs x)"

definition py_startswith :: "string \<Rightarrow> string \<Rightarrow> bool" where
  "py_startswith s x = prefix x s"

definition py_endswith :: "string \<Rightarrow> string \<Rightarrow> bool" where
  "py_endswith s x = suffix x s"

definition is_digit :: "char \<Rightarrow> bool" where
  "is_digit c = (48 \<le> (of_char c :: nat) \<and> (of_char c :: nat) \<le> 57)"

definition digit_val :: "char \<Rightarrow> nat" where
  "digit_val c = (of_char c :: nat) - 48"

fun parse_digits :: "nat \<Rightarrow> string \<Rightarrow> nat option" where
  "parse_digits acc [] = Some acc"
| "parse_digits acc (c # cs) =
     (if is_digit c then parse_digits (10 * acc + digit_val c) cs
      else if c = CHR ''_'' then
        (case cs of
           d # ds \<Rightarrow> if is_digit d then parse_digits (10 * acc + digit_val d) ds else None
         | [] \<Rightarrow> None)
      else None)"

definition parse_nat :: "string \<Rightarrow> nat option" where
  "parse_nat s = (case s of
       [] \<Rightarrow> None
     | c # cs \<Rightarrow> if is_digit c then parse_digits (digit_val c) cs else None)"

text \<open>
  \<^verbatim>\<open>int(s)\<close> for a string: surrounding whitespace is dropped, one optional sign, then decimal
  digits with single underscores allowed between digits. \<open>None\<close> stands for \<^verbatim>\<open>ValueError\<close>.
  The whitespace \<^verbatim>\<open>int\<close> drops is that of \<^verbatim>\<open>str.strip\<close> without the four separator
  characters 28 to 31. A string with more than 4300 digits (leading zeros counted, sign and
  underscores not) is refused, as the interpreter's default \<^verbatim>\<open>int_max_str_digits\<close> has it.
\<close>

definition int_isspace :: "char \<Rightarrow> bool" where
  "int_isspace c = (let n = (of_char c :: nat) in
     (9 \<le> n \<and> n \<le> 13) \<or> n = 32 \<or> n = 133 \<or> n = 160)"

definition int_max_str_digits :: nat where
  "int_max_str_digits = 4300"

definition too_many_digits :: "string \<Rightarrow> bool" where
  "too_many_digits body = (drop int_max_str_digits (filter is_digit body) \<noteq> [])"

definition py_int :: "string \<Rightarrow> int option" where
  "py_int s = (case rev (dropWhile int_isspace (rev (dropWhile int_isspace s))) of
       [] \<Rightarrow> None
     | c # cs \<Rightarrow>
         if c = CHR ''-'' then
           (if too_many_digits cs then None else map_option (\<lambda>n. - int n) (parse_nat cs))
         else if c = CHR ''+'' then
           (if too_many_digits cs then None else map_option int (parse_nat cs))
         else
           (if too_many_digits (c # cs) then None else map_option int (parse_nat (c # cs))))"

fun string_of_nat :: "nat \<Rightarrow> string" where
  "string_of_nat n =
     (if n < 10 then [char_of (48 + n)]
      else string_of_nat (n div 10) @ [char_of (48 + n mod 10)])"

declare string_of_nat.simps [simp del]

definition string_of_int :: "int \<Rightarrow> string" where
  "string_of_int i = (if i < 0 then CHR ''-'' # string_of_nat (nat (- i)) else string_of_nat (nat i))"

section \<open>The verdict record and the stage orchestrator (validation\_pipeline.py)\<close>

record ValidationResult =
  file_path :: string
  xsd_passed :: bool
  xsd_errors :: "string list"
  schematron_passed :: bool
  schematron_errors :: "string list"
  python_passed :: bool
  python_errors :: "string list"

text \<open>\<^verbatim>\<open>ValidationResult.__init__\<close>\<close>

definition ValidationResult_init :: "string \<Rightarrow> ValidationResult" where
  "ValidationResult_init f =
     \<lparr>file_path = f, xsd_passed = False, xsd_errors = [],
      schematron_passed = False, schematron_errors = [],
      python_passed = False, python_errors = []\<rparr>"

definition is_valid :: "ValidationResult \<Rightarrow> bool" where
  "is_valid r = (xsd_passed r \<and> schematron_passed r \<and> python_passed r)"

definition total_errors :: "ValidationResult \<Rightarrow> nat" where
  "total_errors r =
     length (xsd_errors r) + length (schematron_errors r) + length (python_errors r)"

text \<open>
  A finding of the rule engine (class \<^verbatim>\<open>ValidationError\<close>); \<open>repr_error\<close> is its
  \<^verbatim>\<open>__repr__\<close>, which \<^verbatim>\<open>str(err)\<close> falls back to.
\<close>

record ValidationError =
  rule_number :: int
  severity :: string
  message :: string
  xpath :: string
  line_number :: int

definition mk_error :: "int \<Rightarrow> string \<Rightarrow> string \<Rightarrow> ValidationError" where
  "mk_error n msg xp =
     \<lparr>rule_number = n, severity = ''error'', message = msg, xpath = xp, line_number = 0\<rparr>"

definition repr_error :: "ValidationError \<Rightarrow> string" where
  "repr_error e = ''Rule '' @ string_of_int (rule_number e) @ '' ['' @ severity e @ '']: ''
       @ message e @ '' (at '' @ xpath e @ '')''"

text \<open>
  What a call into an external collaborator does: it returns a value or raises an exception
  (kept as the text of \<^verbatim>\<open>str(e)\<close>). The subprocess call can also time out.
\<close>

datatype 'a outcome = Returned 'a | Raised string

record xsd_error =
  err_path :: string
  err_reason :: string

text \<open>
  The loaded schema object (\<^verbatim>\<open>self.xsd_schema\<close>): its \<^verbatim>\<open>is_valid\<close> and
  \<^verbatim>\<open>iter_errors\<close> methods, per file. The pipeline holds \<open>None\<close> when no schema was loaded.
\<close>

record xsd_schema =
  schema_is_valid :: "string \<Rightarrow> bool outcome"
  schema_iter_errors :: "string \<Rightarrow> xsd_error list outcome"

datatype run_result = Completed int string string | TimeoutExpired | RunFailed string

text \<open>
  The pipeline object with its collaborators: the schema, the subprocess runner for the
  Schematron validator, the two regular-expression extractions of SVRL messages
  (\<^verbatim>\<open>re.findall\<close> with the formatting of each match), and the rule engine's
  \<^verbatim>\<open>validate_file\<close>.
\<close>

record pipeline =
  p_xsd_schema :: "xsd_schema option"
  p_run_schematron :: "string \<Rightarrow> run_result"
  p_svrl_ns_messages :: "string \<Rightarrow> string list"
  p_svrl_messages :: "string \<Rightarrow> string list"
  p_check_filesystem :: bool
  p_python_validate_file :: "string \<Rightarrow> bool \<Rightarrow> ValidationError list outcome"

definition format_xsd_error :: "xsd_error \<Rightarrow> string" where
  "format_xsd_error err =
     (if err_path err \<noteq> [] then ''At '' @ err_path err @ '':'' else ''At <unknown>:'')
       @ '' '' @ err_reason err"

definition validate_xsd :: "pipeline \<Rightarrow> string \<Rightarrow> bool \<times> string list" where
  "validate_xsd self xml_file =
     (case p_xsd_schema self of
        None \<Rightarrow> (True, [])
      | Some schema \<Rightarrow>
          (case schema_is_valid schema xml_file of
             Raised e \<Rightarrow> (False, [''XSD validation error: '' @ e])
           | Returned True \<Rightarrow> (True, [])
           | Returned False \<Rightarrow>
               (case schema_iter_errors schema xml_file of
                  Raised e \<Rightarrow> (False, [''XSD validation error: '' @ e])
                | Returned errs \<Rightarrow>
                    (let errors = map format_xsd_error errs in
                     (False, if errors \<noteq> [] then errors
                             else [''Unknown XSD validation error''])))))"

text \<open>Step 1 of the Schematron error collection: bullet lines.\<close>

definition bullet_line :: "string \<Rightarrow> string list" where
  "bullet_line line =
     (let s = py_strip line in
      if py_startswith s ''- '' then [drop 2 s]
      else if py_startswith s ''-'' \<and> length s > 1 \<and> s ! 1 \<noteq> CHR ''-''
           then [py_lstrip (drop 1 s)]
      else [])"

definition fail_line :: "string \<Rightarrow> string list" where
  "fail_line line = (if py_startswith (py_strip line) ''[FAIL]'' then [py_strip line] else [])"

definition interesting_line :: "string \<Rightarrow> string list" where
  "interesting_line line =
     (let s = py_strip line in
      if list_ex (\<lambda>tok. py_contains (py_lower s) tok)
           [''fail'', ''failed-assert'', ''error'', ''assert'', ''schematron'']
      then [s] else [])"

definition last_n :: "nat \<Rightarrow> 'a list \<Rightarrow> 'a list" where
  "last_n n xs = drop (length xs - n) xs"

definition collect_errors :: "string list \<Rightarrow> string list \<Rightarrow> string \<Rightarrow> string list" where
  "collect_errors svrl_ns_matches svrl_matches output =
     (let e1 = concat (map bullet_line (py_split CHR 0x0A output));
          e2 = (if e1 = [] then svrl_ns_matches else e1);
          e3 = (if e2 = [] then svrl_matches else e2);
          e4 = (if e3 = [] then concat (map fail_line (py_split CHR 0x0A output)) else e3);
          e5 = (if e4 = [] then last_n 20 (concat (map interesting_line (py_splitlines output)))
                else e4)
      in e5)"

definition collect_schematron_errors :: "pipeline \<Rightarrow> string \<Rightarrow> string list" where
  "collect_schematron_errors self output =
     collect_errors (p_svrl_ns_messages self output) (p_svrl_messages self output) output"

definition validate_schematron :: "pipeline \<Rightarrow> string \<Rightarrow> bool \<times> string list" where
  "validate_schematron self xml_file =
     (case p_run_schematron self xml_file of
        TimeoutExpired \<Rightarrow> (False, [''Schematron validation timed out''])
      | RunFailed e \<Rightarrow> (False, [''Schematron validation error: '' @ e])
      | Completed returncode out err \<Rightarrow>
          (let output = out @ err;
               passed_tokens = (py_contains output ''[PASS]'' \<or> py_contains output ''PASSED'');
               failed_tokens = (py_contains output ''[FAIL]'' \<or> py_contains output ''FAILED'')
           in
           if returncode = 0 \<and> passed_tokens \<and> \<not> failed_tokens then (True, [])
           else if returncode \<noteq> 0 \<or> failed_tokens then
             (let errors = collect_schematron_errors self output in
              (False, if errors \<noteq> [] then errors
                      else [''Schematron validation failed (no parsable messages; raw output suppressed)'']))
           else (True, [])))"

definition validate_python :: "pipeline \<Rightarrow> string \<Rightarrow> bool \<times> string list" where
  "validate_python self xml_file =
     (case p_python_validate_file self xml_file (p_check_filesystem self) of
        Raised e \<Rightarrow> (False, [''Python validation error: '' @ e])
      | Returned errors \<Rightarrow>
          (if errors \<noteq> [] then (False, map repr_error errors) else (True, [])))"

text \<open>
  The console output of \<^verbatim>\<open>validate_file\<close>: each stage prints its banner before it runs
  and its verdict after.
\<close>

datatype console = Banner nat | Verdict bool

definition validate_file :: "pipeline \<Rightarrow> string \<Rightarrow> ValidationResult \<times> console list" where
  "validate_file self xml_file =
     (let result = ValidationResult_init xml_file;
          out1 = [Banner 1];
          (xp, xe) = validate_xsd self xml_file;
          result = result\<lparr>xsd_passed := xp, xsd_errors := xe\<rparr>;
          out2 = out1 @ [Verdict (xsd_passed result)] @ [Banner 2];
          (sp, se) = validate_schematron self xml_file;
          result = result\<lparr>schematron_passed := sp, schematron_errors := se\<rparr>;
          out3 = out2 @ [Verdict (schematron_passed result)] @ [Banner 3];
          (pp, pe) = validate_python self xml_file;
          result = result\<lparr>python_passed := pp, python_errors := pe\<rparr>;
          result = (if python_errors result \<noteq> [] then result\<lparr>python_passed := False\<rparr>
                    else result);
          out4 = out3 @ [Verdict (python_passed result)]
      in (result, out4))"

text \<open>Two concrete pipelines: one whose collaborators all succeed, one whose three stages all fail.\<close>

definition clean_pipeline :: pipeline where
  "clean_pipeline =
     \<lparr>p_xsd_schema = Some \<lparr>schema_is_valid = (\<lambda>_. Returned True),
                            schema_iter_errors = (\<lambda>_. Returned [])\<rparr>,
      p_run_schematron = (\<lambda>_. Completed 0 ''[PASS] all rules'' []),
      p_svrl_ns_messages = (\<lambda>_. []),
      p_svrl_messages = (\<lambda>_. []),
      p_check_filesystem = True,
      p_python_validate_file = (\<lambda>_ _. Returned [])\<rparr>"

definition broken_pipeline :: pipeline where
  "broken_pipeline =
     \<lparr>p_xsd_schema = Some \<lparr>schema_is_valid = (\<lambda>_. Returned False),
                            schema_iter_errors = (\<lambda>_. Returned [])\<rparr>,
      p_run_schematron = (\<lambda>_. Completed 2 ''- Rule 3 failed'' []),
      p_svrl_ns_messages = (\<lambda>_. []),
      p_svrl_messages = (\<lambda>_. []),
      p_check_filesystem = True,
      p_python_validate_file = (\<lambda>_ _. Returned [mk_error 6 ''dup'' ''/AR'']) \<rparr>"

section \<open>Shared helpers of the rule engine (python\_logical\_validations.py)\<close>

text \<open>\<^verbatim>\<open>_normalize_dest_path\<close>: \<^verbatim>\<open>dest.strip().strip("/")\<close>\<close>

definition normalize_dest_path :: "string \<Rightarrow> string" where
  "normalize_dest_path dest = py_strip_chars ''/'' (py_strip dest)"

text \<open>\<^verbatim>\<open>_extract_short_name_from_dest\<close>\<close>

definition extract_short_name_from_dest :: "string \<Rightarrow> string" where
  "extract_short_name_from_dest dest =
     (let normalized = normalize_dest_path dest;
          segments = py_split CHR ''/'' normalized
      in if segments \<noteq> [] then last segments else [])"

text \<open>
  The resolution step as the rules write it inline (for example rule 79:
  \<^verbatim>\<open>name = self._extract_short_name_from_dest(ref)\<close>, then
  \<^verbatim>\<open>if name in self.cluster_index: elem = self.cluster_index[name]\<close>): the index is asked
  for the extracted short name and for nothing else.
\<close>

definition resolve_dest :: "(string \<rightharpoonup> 'n) \<Rightarrow> string \<Rightarrow> 'n option" where
  "resolve_dest index dest = index (extract_short_name_from_dest dest)"

definition is_ident_start :: "char \<Rightarrow> bool" where
  "is_ident_start c = (let n = (of_char c :: nat) in
     (97 \<le> n \<and> n \<le> 122) \<or> (65 \<le> n \<and> n \<le> 90) \<or> c = CHR ''_'')"

definition is_ident_char :: "char \<Rightarrow> bool" where
  "is_ident_char c = (let n = (of_char c :: nat) in
     (97 \<le> n \<and> n \<le> 122) \<or> (65 \<le> n \<and> n \<le> 90) \<or> (48 \<le> n \<and> n \<le> 57) \<or> c = CHR ''_'')"

text \<open>
  \<^verbatim>\<open>re.compile(r"^[a-zA-Z_][a-zA-Z0-9_]*$").match(name)\<close>. The star is greedy and every
  character it may give back is an identifier character, so the match succeeds exactly when
  \<^verbatim>\<open>$\<close> holds right after the longest run of identifier characters. Without the
  \<^verbatim>\<open>MULTILINE\<close> flag, \<^verbatim>\<open>$\<close> holds at the end of the string and also just before a
  line feed that is the last character of the string.
\<close>

definition c_identifier_pattern_match :: "string \<Rightarrow> bool" where
  "c_identifier_pattern_match name = (case name of
       [] \<Rightarrow> False
     | c # cs \<Rightarrow> is_ident_start c \<and>
         (let rest = dropWhile is_ident_char cs in rest = [] \<or> rest = [CHR 0x0A]))"

definition c_keywords :: "string list" where
  "c_keywords =
    [''auto'', ''break'', ''case'', ''char'', ''const'', ''continue'', ''default'', ''do'',
     ''double'', ''else'', ''enum'', ''extern'', ''float'', ''for'', ''goto'', ''if'',
     ''inline'', ''int'', ''long'', ''register'', ''restrict'', ''return'', ''short'',
     ''signed'', ''sizeof'', ''static'', ''struct'', ''switch'', ''typedef'', ''union'',
     ''unsigned'', ''void'', ''volatile'', ''while'', ''_Alignas'', ''_Alignof'', ''_Atomic'',
     ''_Bool'', ''_Complex'', ''_Generic'', ''_Imaginary'', ''_Noreturn'', ''_Static_assert'',
     ''_Thread_local'']"

text \<open>\<^verbatim>\<open>_validate_c_identifier\<close>\<close>

definition validate_c_identifier :: "string \<Rightarrow> bool \<times> string" where
  "validate_c_identifier name =
     (if \<not> c_identifier_pattern_match name then
        (False, ''is not a valid C identifier. C identifiers must match the pattern ^[a-zA-Z_][a-zA-Z0-9_]*$ (start with letter or underscore, contain only letters, digits, and underscores).'')
      else if name \<in> set c_keywords then
        (False, ''is a reserved C keyword and cannot be used as an identifier.'')
      else (True, []))"

text \<open>
  The acceptance condition in the words of the specification: the whole identifier matches
  \<^verbatim>\<open>[A-Za-z_][A-Za-z0-9_]*\<close> and is not a C keyword.
\<close>

definition spec_identifier_accepted :: "string \<Rightarrow> bool" where
  "spec_identifier_accepted name =
     (name \<noteq> [] \<and> is_ident_start (hd name) \<and> list_all is_ident_char (tl name)
      \<and> name \<notin> set c_keywords)"

section \<open>The document tree and the XPath queries the rules use\<close>

text \<open>
  An element of the parsed document (\<^verbatim>\<open>lxml\<close>): tag, attributes, text and the child
  elements in document order. Documents without namespaces are modelled; comments and
  processing instructions are not elements and do not occur.
\<close>

datatype xml = Element (tag: string) (attrib: "(string \<times> string) list")
  (etext: "string option") (children: "xml list")

text \<open>
  A node of the tree is addressed by its position: the child indices on the way down from
  the root element. Two handles denote the same element exactly when they are equal, as
  object identity does for \<^verbatim>\<open>lxml\<close> elements.
\<close>

type_synonym node = "nat list"

fun node_at :: "xml \<Rightarrow> node \<Rightarrow> xml option" where
  "node_at e [] = Some e"
| "node_at e (i # p) = (if i < length (children e) then node_at (children e ! i) p else None)"

definition elem_at :: "xml \<Rightarrow> node \<Rightarrow> xml" where
  "elem_at doc p = (case node_at doc p of Some e \<Rightarrow> e | None \<Rightarrow> Element [] [] None [])"

text \<open>All positions of a tree in document order (preorder), the root first.\<close>

fun positions :: "xml \<Rightarrow> node list"
  and positions_from :: "nat \<Rightarrow> xml list \<Rightarrow> node list" where
  "positions (Element t a x ks) = [] # positions_from 0 ks"
| "positions_from i [] = []"
| "positions_from i (k # ks) = map ((#) i) (positions k) @ positions_from (Suc i) ks"

definition tag_of :: "xml \<Rightarrow> node \<Rightarrow> string" where
  "tag_of doc p = tag (elem_at doc p)"

text \<open>\<^verbatim>\<open>elem.get(key)\<close> and \<^verbatim>\<open>elem.get(key, default)\<close>\<close>

definition attr_get :: "xml \<Rightarrow> node \<Rightarrow> string \<Rightarrow> string option" where
  "attr_get doc p key = map_of (attrib (elem_at doc p)) key"

definition attr_get_default :: "xml \<Rightarrow> node \<Rightarrow> string \<Rightarrow> string \<Rightarrow> string" where
  "attr_get_default doc p key dflt = (case attr_get doc p key of Some v \<Rightarrow> v | None \<Rightarrow> dflt)"

text \<open>The proper descendants of a node and its children, in document order.\<close>

definition descendants :: "xml \<Rightarrow> node \<Rightarrow> node list" where
  "descendants doc ctx = (case node_at doc ctx of
       None \<Rightarrow> []
     | Some e \<Rightarrow> map ((@) ctx) (tl (positions e)))"

definition child_nodes :: "xml \<Rightarrow> node \<Rightarrow> node list" where
  "child_nodes doc ctx = (case node_at doc ctx of
       None \<Rightarrow> []
     | Some e \<Rightarrow> map (\<lambda>i. ctx @ [i]) [0..<length (children e)])"

text \<open>
  \<^verbatim>\<open>root.xpath("//A | //B")\<close>, \<^verbatim>\<open>elem.xpath(".//A | .//B")\<close> and
  \<^verbatim>\<open>elem.xpath("A | B")\<close>: the elements with one of the tags among all elements, among the
  proper descendants, among the children. A node set comes back in document order.
\<close>

definition xp_anywhere :: "xml \<Rightarrow> string list \<Rightarrow> node list" where
  "xp_anywhere doc tags = filter (\<lambda>p. tag_of doc p \<in> set tags) (positions doc)"

definition xp_descendants :: "xml \<Rightarrow> node \<Rightarrow> string list \<Rightarrow> node list" where
  "xp_descendants doc ctx tags = filter (\<lambda>p. tag_of doc p \<in> set tags) (descendants doc ctx)"

definition xp_children :: "xml \<Rightarrow> node \<Rightarrow> string list \<Rightarrow> node list" where
  "xp_children doc ctx tags = filter (\<lambda>p. tag_of doc p \<in> set tags) (child_nodes doc ctx)"

text \<open>The tags on the way from the root element down to a node, the node's own tag last.\<close>

definition tags_to :: "xml \<Rightarrow> node \<Rightarrow> string list" where
  "tags_to doc p = map (\<lambda>k. tag_of doc (take k p)) [0..<Suc (length p)]"

text \<open>
  \<^verbatim>\<open>root.xpath("//T1/T2/.../Tn")\<close> and \<^verbatim>\<open>elem.xpath(".//T1/T2/.../Tn")\<close>: the elements
  reached by a chain of child steps with these tags, the chain starting anywhere in the
  document, respectively anywhere strictly below \<open>ctx\<close>.
\<close>

definition xp_anywhere_path :: "xml \<Rightarrow> string list \<Rightarrow> node list" where
  "xp_anywhere_path doc tags = filter (\<lambda>p. suffix tags (tags_to doc p)) (positions doc)"



text \<open>The values of attribute \<open>key\<close> on a list of nodes (\<^verbatim>\<open>.../@key\<close>).\<close>

definition attr_values :: "xml \<Rightarrow> node list \<Rightarrow> string \<Rightarrow> string list" where
  "attr_values doc ps key = List.map_filter (\<lambda>p. attr_get doc p key) ps"

text \<open>\<^verbatim>\<open>elem.xpath("SHORT-NAME/@name")\<close> and \<^verbatim>\<open>elem.xpath(".//SHORT-NAME/@name")\<close>\<close>

definition short_names :: "xml \<Rightarrow> node \<Rightarrow> string list" where
  "short_names doc ctx = attr_values doc (xp_children doc ctx [''SHORT-NAME'']) ''name''"






definition find_descendant :: "xml \<Rightarrow> node \<Rightarrow> string \<Rightarrow> node option" where
  "find_descendant doc ctx t = (case xp_descendants doc ctx [t] of [] \<Rightarrow> None | p # _ \<Rightarrow> Some p)"

text \<open>
  \<^verbatim>\<open>tree.getpath(elem)\<close>: one step per level, \<^verbatim>\<open>/tag\<close> when no sibling has the same tag
  and \<^verbatim>\<open>/tag[n]\<close> otherwise, \<open>n\<close> counting the same-tag siblings up to and including the
  element.
\<close>

definition path_step :: "xml \<Rightarrow> nat \<Rightarrow> string" where
  "path_step parent i =
     (let ks = children parent;
          t = tag (ks ! i);
          preceding = length (filter (\<lambda>k. tag k = t) (take i ks));
          following = length (filter (\<lambda>k. tag k = t) (drop (Suc i) ks))
      in ''/'' @ t @ (if preceding = 0 \<and> following = 0 then [] else ''['' @ string_of_nat (Suc preceding) @ '']''))"

fun getpath_from :: "xml \<Rightarrow> node \<Rightarrow> string" where
  "getpath_from e [] = []"
| "getpath_from e (i # p) = path_step e i @ getpath_from (children e ! i) p"

definition getpath :: "xml \<Rightarrow> node \<Rightarrow> string" where
  "getpath doc p = ''/'' @ tag doc @ getpath_from doc p"

text \<open>Quoting as the f-strings of the messages do.\<close>

definition sq :: "string \<Rightarrow> string" where
  "sq s = CHR 0x27 # s @ [CHR 0x27]"

definition dq :: "string \<Rightarrow> string" where
  "dq s = CHR 0x22 # s @ [CHR 0x22]"

section \<open>Rule 6: runnable names are globally unique\<close>

definition rule_6_message :: "string \<Rightarrow> string \<Rightarrow> string" where
  "rule_6_message name previous =
     ''Duplicate RUNNABLE-ENTITY SHORT-NAME/@name '' @ sq name
       @ '' found. Previous occurrence(s) at: '' @ previous"

text \<open>
  The loop of \<^verbatim>\<open>_validate_rule_6\<close> over the runnables still to visit, with the dictionary
  \<^verbatim>\<open>name_to_paths\<close> as loop state; it yields the findings appended from here on.
\<close>

fun rule_6_loop :: "xml \<Rightarrow> (string \<rightharpoonup> string) \<Rightarrow> node list \<Rightarrow> ValidationError list" where
  "rule_6_loop doc name_to_paths [] = []"
| "rule_6_loop doc name_to_paths (runnable # rest) =
     (case short_names doc runnable of
        [] \<Rightarrow> rule_6_loop doc name_to_paths rest
      | name # _ \<Rightarrow>
          (let xpath = getpath doc runnable in
           case name_to_paths name of
             Some previous \<Rightarrow>
               mk_error 6 (rule_6_message name previous) xpath
                 # rule_6_loop doc name_to_paths rest
           | None \<Rightarrow> rule_6_loop doc (name_to_paths(name \<mapsto> xpath)) rest))"

definition validate_rule_6 :: "xml \<Rightarrow> ValidationError list" where
  "validate_rule_6 doc = rule_6_loop doc Map.empty (xp_anywhere doc [''RUNNABLE-ENTITY''])"

text \<open>The dictionary \<^verbatim>\<open>name_to_paths\<close> after the loop has visited a list of runnables.\<close>

fun rule_6_seen :: "xml \<Rightarrow> (string \<rightharpoonup> string) \<Rightarrow> node list \<Rightarrow> (string \<rightharpoonup> string)" where
  "rule_6_seen doc name_to_paths [] = name_to_paths"
| "rule_6_seen doc name_to_paths (runnable # rest) =
     (case short_names doc runnable of
        [] \<Rightarrow> rule_6_seen doc name_to_paths rest
      | name # _ \<Rightarrow>
          (case name_to_paths name of
             Some previous \<Rightarrow> rule_6_seen doc name_to_paths rest
           | None \<Rightarrow> rule_6_seen doc (name_to_paths(name \<mapsto> getpath doc runnable)) rest))"

text \<open>The name the rules read off an element: the first \<^verbatim>\<open>SHORT-NAME/@name\<close> value.\<close>

definition has_short_name :: "xml \<Rightarrow> node \<Rightarrow> bool" where
  "has_short_name doc p = (short_names doc p \<noteq> [])"

definition short_name :: "xml \<Rightarrow> node \<Rightarrow> string" where
  "short_name doc p = hd (short_names doc p)"

text \<open>A document with two runnables that share the name \<^verbatim>\<open>Read_Run_0\<close> and a third one.\<close>

definition doc_duplicate_runnable :: xml where
  "doc_duplicate_runnable =
     Element ''AR-PACKAGE'' [] None
       [Element ''APPLICATION-SW-COMPONENT-TYPE'' [] None
          [Element ''SHORT-NAME'' [(''name'', ''Swc_A'')] None [],
           Element ''RUNNABLE-ENTITY'' [] None
             [Element ''SHORT-NAME'' [(''name'', ''Read_Run_0'')] None []],
           Element ''RUNNABLE-ENTITY'' [] None
             [Element ''SHORT-NAME'' [(''name'', ''Write_Run_0'')] None []]],
        Element ''APPLICATION-SW-COMPONENT-TYPE'' [] None
          [Element ''SHORT-NAME'' [(''name'', ''Swc_B'')] None [],
           Element ''RUNNABLE-ENTITY'' [] None
             [Element ''SHORT-NAME'' [(''name'', ''Read_Run_0'')] None []]]]"

section \<open>Rule 79 (core-id range of prebuilt-application mappings) and rule 10\<close>














section \<open>Rule 76 (HW): the clock frequency of Linux clusters\<close>

definition cpu_cluster_tags :: "string list" where
  "cpu_cluster_tags = [''CPU_Cluster'', ''CPU-Cluster'', ''CPUCluster'']"

definition os_tags :: "string list" where
  "os_tags = [''Operating-System'', ''OS'', ''OperatingSystem'']"

text \<open>One round of the loop over \<^verbatim>\<open>os_nodes\<close>: does this node make the cluster a Linux one?\<close>

definition os_node_is_linux :: "xml \<Rightarrow> node \<Rightarrow> bool" where
  "os_node_is_linux doc os_node =
     (xp_descendants doc os_node [''Linux''] \<noteq> []
      \<or> (case etext (elem_at doc os_node) of
            None \<Rightarrow> False
          | Some t \<Rightarrow> t \<noteq> [] \<and> py_contains (py_lower t) ''linux''))"

text \<open>
  The value of \<^verbatim>\<open>is_linux\<close> once the loop and the fallback test on the local names of
  all descendants are done.
\<close>

definition cluster_is_linux :: "xml \<Rightarrow> node \<Rightarrow> bool" where
  "cluster_is_linux doc cpu_cluster =
     (list_ex (os_node_is_linux doc) (xp_descendants doc cpu_cluster os_tags)
      \<or> filter (\<lambda>p. py_contains (tag_of doc p) ''Linux'' \<or> py_contains (tag_of doc p) ''LINUX'')
           (descendants doc cpu_cluster) \<noteq> [])"

definition rule_76_cluster_name :: "xml \<Rightarrow> node \<Rightarrow> string" where
  "rule_76_cluster_name doc cpu_cluster =
     (case find_descendant doc cpu_cluster ''SHORT-NAME'' of
        None \<Rightarrow> ''unnamed''
      | Some short_name_elem \<Rightarrow> attr_get_default doc short_name_elem ''name'' ''unnamed'')"

definition rule_76_missing_message :: "string \<Rightarrow> string" where
  "rule_76_missing_message cluster_name =
     ''CPU_Cluster '' @ dq cluster_name @ '' running Linux OS is missing Frequency value''"

definition rule_76_invalid_message :: "string \<Rightarrow> int \<Rightarrow> string" where
  "rule_76_invalid_message cluster_name freq_int =
     ''CPU_Cluster '' @ dq cluster_name @ '' running Linux OS has invalid Frequency: ''
       @ string_of_int freq_int @ '' Hz. Must be exactly 1000000000 Hz (1 GHz)''"

definition rule_76_not_numeric_message :: "string \<Rightarrow> string \<Rightarrow> string" where
  "rule_76_not_numeric_message cluster_name freq_value =
     ''CPU_Cluster '' @ dq cluster_name @ '' running Linux OS has invalid Frequency value: ''
       @ dq freq_value @ '' (must be numeric)''"

text \<open>The string a \<^verbatim>\<open>Frequency\<close> node gives: its \<^verbatim>\<open>value\<close> attribute or else its text.\<close>

definition frequency_value :: "xml \<Rightarrow> node \<Rightarrow> string" where
  "frequency_value doc freq_node =
     (let freq_value = py_strip (attr_get_default doc freq_node ''value'' []) in
      if freq_value = [] then
        py_strip (case etext (elem_at doc freq_node) of None \<Rightarrow> [] | Some t \<Rightarrow> t)
      else freq_value)"

definition rule_76_frequency_node :: "xml \<Rightarrow> string \<Rightarrow> node \<Rightarrow> ValidationError list" where
  "rule_76_frequency_node doc cluster_name freq_node =
     (let freq_value = frequency_value doc freq_node in
      if freq_value = [] then []
      else
        (case py_int freq_value of
           Some freq_int \<Rightarrow>
             if freq_int \<noteq> 1000000000 then
               [mk_error 76 (rule_76_invalid_message cluster_name freq_int)
                  (getpath doc freq_node)]
             else []
         | None \<Rightarrow>
             [mk_error 76 (rule_76_not_numeric_message cluster_name freq_value)
                (getpath doc freq_node)]))"

definition rule_76_cluster :: "xml \<Rightarrow> node \<Rightarrow> ValidationError list" where
  "rule_76_cluster doc cpu_cluster =
     (if \<not> cluster_is_linux doc cpu_cluster then []
      else
        (let cluster_name = rule_76_cluster_name doc cpu_cluster;
             freq_nodes = xp_descendants doc cpu_cluster [''Frequency'']
         in if freq_nodes = [] then
              [mk_error 76 (rule_76_missing_message cluster_name) (getpath doc cpu_cluster)]
            else concat (map (rule_76_frequency_node doc cluster_name) freq_nodes)))"

definition validate_rule_76_hw_frequency :: "xml \<Rightarrow> ValidationError list" where
  "validate_rule_76_hw_frequency doc =
     concat (map (rule_76_cluster doc) (xp_anywhere doc cpu_cluster_tags))"

text \<open>
  A cluster that nothing in the document marks as a Linux cluster: no operating-system node
  below it has a \<^verbatim>\<open>Linux\<close> element below itself or a text with \<^verbatim>\<open>linux\<close> in it (in
  any letter case), and no element below the cluster has \<^verbatim>\<open>Linux\<close> or \<^verbatim>\<open>LINUX\<close> in
  its tag.
\<close>

definition cluster_without_linux :: "xml \<Rightarrow> node \<Rightarrow> bool" where
  "cluster_without_linux doc c =
     ((\<forall>os \<in> set (xp_descendants doc c os_tags).
         xp_descendants doc os [''Linux''] = []
         \<and> (case etext (elem_at doc os) of
               None \<Rightarrow> True
             | Some t \<Rightarrow> \<not> py_contains (py_lower t) ''linux''))
      \<and> (\<forall>p \<in> set (descendants doc c).
            \<not> py_contains (tag_of doc p) ''Linux'' \<and> \<not> py_contains (tag_of doc p) ''LINUX''))"

text \<open>
  A cluster at the required frequency: it has a \<^verbatim>\<open>Frequency\<close> node below it, and every
  such node gives no value at all or one that reads as the integer 1000000000, the value
  being the stripped \<^verbatim>\<open>value\<close> attribute or, when that is empty, the stripped text.
\<close>

definition cluster_at_required_frequency :: "xml \<Rightarrow> node \<Rightarrow> bool" where
  "cluster_at_required_frequency doc c =
     (xp_descendants doc c [''Frequency''] \<noteq> []
      \<and> (\<forall>f \<in> set (xp_descendants doc c [''Frequency'']).
            (let a = py_strip (attr_get_default doc f ''value'' []);
                 t = py_strip (case etext (elem_at doc f) of None \<Rightarrow> [] | Some x \<Rightarrow> x);
                 v = (if a = [] then t else a)
             in v = [] \<or> py_int v = Some 1000000000)))"

text \<open>
  A document with a Nucleus cluster, then a Linux cluster whose \<^verbatim>\<open>Frequency\<close> element
  carries the given attributes and text, then a Linux cluster at the required frequency.
\<close>

definition doc_mixed_clusters :: "(string \<times> string) list \<Rightarrow> string option \<Rightarrow> xml" where
  "doc_mixed_clusters freq_attrs freq_text =
     Element ''AR-PACKAGE'' [] None
       [Element ''ECUs'' [] None
          [Element ''SHORT-NAME'' [(''name'', ''ECU1'')] None [],
           Element ''SoCs'' [] None
             [Element ''SHORT-NAME'' [(''name'', ''SoC1'')] None [],
              Element ''CPU_Cluster'' [] None
                [Element ''SHORT-NAME'' [(''name'', ''Cluster_N'')] None [],
                 Element ''Operating-System'' [] None [Element ''Nucleus_RTOS'' [] None []],
                 Element ''ARMV8-Family'' [] None
                   [Element ''CortexA53'' [(''CoresPerCluster'', ''1'')] None
                      [Element ''Frequency'' [(''value'', ''500000000'')] None []]]],
              Element ''CPU_Cluster'' [] None
                [Element ''SHORT-NAME'' [(''name'', ''Cluster_L'')] None [],
                 Element ''Operating-System'' [] None [Element ''Linux'' [] None []],
                 Element ''ARMV8-Family'' [] None
                   [Element ''CortexA72'' [(''CoresPerCluster'', ''2'')] None
                      [Element ''Frequency'' freq_attrs freq_text []]]],
              Element ''CPU_Cluster'' [] None
                [Element ''SHORT-NAME'' [(''name'', ''Cluster_G'')] None [],
                 Element ''Operating-System'' [] None [Element ''Linux'' [] None []],
                 Element ''ARMV8-Family'' [] None
                   [Element ''CortexA72'' [(''CoresPerCluster'', ''2'')] None
                      [Element ''Frequency'' [(''value'', ''1000000000'')] None []]]]]]]"

section \<open>Rules 5 and 4: a port is referenced by exactly one data access\<close>
























section \<open>Rule 63 (hardware operations reach a port) and rules 22/23 (data access references)\<close>

















section \<open>The identifier-naming rules\<close>

text \<open>
  The loop body the naming rules share: read the first \<^verbatim>\<open>SHORT-NAME/@name\<close>, ask
  \<^verbatim>\<open>_validate_c_identifier\<close>, and report the element when the helper says no. The rules
  differ in the elements they visit, the rule number and the first words of the message.
\<close>

definition naming_check :: "xml \<Rightarrow> int \<Rightarrow> string \<Rightarrow> node \<Rightarrow> ValidationError list" where
  "naming_check doc rule_no label elem =
     (case short_names doc elem of
        [] \<Rightarrow> []
      | name # _ \<Rightarrow>
          (case validate_c_identifier name of
             (name_is_valid, error_msg) \<Rightarrow>
               if \<not> name_is_valid then
                 [mk_error rule_no (label @ '' '' @ sq name @ '' '' @ error_msg) (getpath doc elem)]
               else []))"

definition validate_rule_7 :: "xml \<Rightarrow> ValidationError list" where
  "validate_rule_7 doc =
     concat (map (naming_check doc 7 ''Runnable name'') (xp_anywhere doc [''RUNNABLE-ENTITY'']))"

definition validate_rule_28 :: "xml \<Rightarrow> ValidationError list" where
  "validate_rule_28 doc =
     concat (map (naming_check doc 28 ''SENDER-RECEIVER-INTERFACE name'')
       (xp_anywhere doc [''SENDER-RECEIVER-INTERFACE'']))"

definition validate_rule_46 :: "xml \<Rightarrow> ValidationError list" where
  "validate_rule_46 doc =
     concat (map (naming_check doc 46 ''SoC name'') (xp_anywhere_path doc [''ECUs'', ''SoCs'']))"

definition validate_rule_52 :: "xml \<Rightarrow> ValidationError list" where
  "validate_rule_52 doc =
     concat (map (naming_check doc 52 ''Chiplet name'') (xp_anywhere doc [''Chiplet'']))"

definition validate_rule_56 :: "xml \<Rightarrow> ValidationError list" where
  "validate_rule_56 doc =
     concat (map (naming_check doc 56 ''Generic_Hardware (HWIP) name'')
       (xp_anywhere doc [''Generic_Hardware'']))"

definition validate_rule_44 :: "xml \<Rightarrow> ValidationError list" where
  "validate_rule_44 doc =
     concat (map (naming_check doc 44 ''ECU name'') (xp_anywhere doc [''ECUs'']))"

text \<open>Rule 16 walks the three event kinds one after the other.\<close>

definition validate_rule_16 :: "xml \<Rightarrow> ValidationError list" where
  "validate_rule_16 doc =
     concat (map (\<lambda>event_type.
                concat (map (naming_check doc 16 ''Event SHORT-NAME/@name'')
                  (xp_anywhere doc [event_type])))
       [''TIMING-EVENT'', ''DATA-RECEIVED-EVENT'', ''TRIGGER-EVENT''])"

text \<open>
  A document whose runnable, SoC and ECU carry the name \<^verbatim>\<open>abc\<close> followed by a line feed
  (written \<^verbatim>\<open>name="abc&#10;"\<close> in the file).
\<close>

definition doc_newline_names :: xml where
  "doc_newline_names =
     Element ''AR-PACKAGE'' [] None
       [Element ''APPLICATION-SW-COMPONENT-TYPE'' [] None
          [Element ''SHORT-NAME'' [(''name'', ''Swc_A'')] None [],
           Element ''RUNNABLE-ENTITY'' [] None
             [Element ''SHORT-NAME'' [(''name'', ''abc'' @ [CHR 0x0A])] None []]],
        Element ''ECUs'' [] None
          [Element ''SHORT-NAME'' [(''name'', ''abc'' @ [CHR 0x0A])] None [],
           Element ''SoCs'' [] None
             [Element ''SHORT-NAME'' [(''name'', ''abc'' @ [CHR 0x0A])] None []]]]"

section \<open>Properties of the verdict record and the orchestrator\<close>

text \<open>
  C2: \<open>is_valid\<close> is exactly the conjunction of the three stage booleans, and replacing the
  three error lists by any others leaves it unchanged. A fresh result has all three stage
  booleans \<open>False\<close> and all three error lists empty, so it is not valid; it stays invalid
  whatever value is written to one stage boolean or to two of them, and once all three are
  written it is valid exactly when all three were written \<open>True\<close>. \<open>total_errors\<close> is the
  sum of the three list lengths: zero for a fresh result, and the sum of the lengths of
  whatever lists are stored.
\<close>

theorem C2_is_valid_total_errors:
  "is_valid r = (xsd_passed r \<and> schematron_passed r \<and> python_passed r)
   \<and> is_valid (r\<lparr>xsd_errors := e1, schematron_errors := e2, python_errors := e3\<rparr>) = is_valid r
   \<and> ValidationResult_init f =
        \<lparr>file_path = f, xsd_passed = False, xsd_errors = [],
         schematron_passed = False, schematron_errors = [],
         python_passed = False, python_errors = []\<rparr>
   \<and> xsd_passed (ValidationResult_init f) = False
   \<and> schematron_passed (ValidationResult_init f) = False
   \<and> python_passed (ValidationResult_init f) = False
   \<and> xsd_errors (ValidationResult_init f) = []
   \<and> schematron_errors (ValidationResult_init f) = []
   \<and> python_errors (ValidationResult_init f) = []
   \<and> is_valid (ValidationResult_init f) = False
   \<and> is_valid ((ValidationResult_init f)\<lparr>xsd_passed := a\<rparr>) = False
   \<and> is_valid ((ValidationResult_init f)\<lparr>schematron_passed := b\<rparr>) = False
   \<and> is_valid ((ValidationResult_init f)\<lparr>python_passed := c\<rparr>) = False
   \<and> is_valid ((ValidationResult_init f)\<lparr>xsd_passed := a, schematron_passed := b\<rparr>) = False
   \<and> is_valid ((ValidationResult_init f)\<lparr>xsd_passed := a, python_passed := c\<rparr>) = False
   \<and> is_valid ((ValidationResult_init f)\<lparr>schematron_passed := b, python_passed := c\<rparr>) = False
   \<and> is_valid ((ValidationResult_init f)
        \<lparr>xsd_passed := a, schematron_passed := b, python_passed := c\<rparr>) = (a \<and> b \<and> c)
   \<and> is_valid ((ValidationResult_init f)
        \<lparr>xsd_passed := True, schematron_passed := True, python_passed := True\<rparr>)
   \<and> total_errors r
        = length (xsd_errors r) + length (schematron_errors r) + length (python_errors r)
   \<and> total_errors (ValidationResult_init f) = 0
   \<and> total_errors ((ValidationResult_init f)
        \<lparr>xsd_errors := e1, schematron_errors := e2, python_errors := e3\<rparr>)
        = length e1 + length e2 + length e3
   \<and> is_valid ((ValidationResult_init f)
        \<lparr>xsd_passed := True, xsd_errors := e1, schematron_passed := True,
         schematron_errors := e2, python_passed := True, python_errors := e3\<rparr>)"
  by (simp add: is_valid_def total_errors_def ValidationResult_init_def)

lemma validate_xsd_passed_empty: "fst (validate_xsd self f) \<Longrightarrow> snd (validate_xsd self f) = []"
  by (auto simp: validate_xsd_def Let_def split: option.splits outcome.splits bool.splits)

lemma validate_schematron_passed_empty:
  "fst (validate_schematron self f) \<Longrightarrow> snd (validate_schematron self f) = []"
  by (auto simp: validate_schematron_def Let_def split: run_result.splits if_splits)

lemma validate_python_passed_iff:
  "fst (validate_python self f) = (snd (validate_python self f) = [])"
  by (auto simp: validate_python_def split: outcome.splits)

lemma validate_file_fields:
  "fst (validate_file self f) =
     \<lparr>file_path = f,
      xsd_passed = fst (validate_xsd self f), xsd_errors = snd (validate_xsd self f),
      schematron_passed = fst (validate_schematron self f),
      schematron_errors = snd (validate_schematron self f),
      python_passed = (fst (validate_python self f) \<and> snd (validate_python self f) = []),
      python_errors = snd (validate_python self f)\<rparr>"
  by (simp add: validate_file_def ValidationResult_init_def Let_def split: prod.splits)

lemma validate_file_console:
  "snd (validate_file self f) =
     [Banner 1, Verdict (fst (validate_xsd self f)),
      Banner 2, Verdict (fst (validate_schematron self f)),
      Banner 3, Verdict (fst (validate_python self f) \<and> snd (validate_python self f) = [])]"
  by (simp add: validate_file_def ValidationResult_init_def Let_def split: prod.splits)

lemma collect_schematron_errors_indep:
  "collect_schematron_errors (self\<lparr>p_xsd_schema := s\<rparr>) out = collect_schematron_errors self out"
  by (simp add: collect_schematron_errors_def)

lemma validate_schematron_indep:
  "validate_schematron (self\<lparr>p_xsd_schema := s\<rparr>) f = validate_schematron self f"
  by (cases "p_run_schematron self f")
     (simp_all add: validate_schematron_def collect_schematron_errors_indep Let_def)

lemma validate_python_indep:
  "validate_python (self\<lparr>p_xsd_schema := s, p_run_schematron := r, p_svrl_ns_messages := m1,
       p_svrl_messages := m2\<rparr>) f = validate_python self f"
  by (simp add: validate_python_def)

text \<open>
  C1: for every pipeline (whatever its collaborators return or raise) and every file,
  \<open>validate_file\<close> announces and reports all three stages in order, and the returned record
  holds, for each stage, exactly the pass boolean and the error list that the stage helper
  yields on that same file. The Schematron fields do not change when the schema is replaced,
  and the Python fields do not change when the schema and the Schematron collaborators are
  replaced: an earlier stage's outcome never reaches a later stage.
\<close>

theorem C1_all_stages_run:
  "xsd_passed (fst (validate_file self f)) = fst (validate_xsd self f)
   \<and> xsd_errors (fst (validate_file self f)) = snd (validate_xsd self f)
   \<and> schematron_passed (fst (validate_file self f)) = fst (validate_schematron self f)
   \<and> schematron_errors (fst (validate_file self f)) = snd (validate_schematron self f)
   \<and> python_passed (fst (validate_file self f)) = fst (validate_python self f)
   \<and> python_errors (fst (validate_file self f)) = snd (validate_python self f)
   \<and> file_path (fst (validate_file self f)) = f
   \<and> snd (validate_file self f) =
        [Banner 1, Verdict (fst (validate_xsd self f)),
         Banner 2, Verdict (fst (validate_schematron self f)),
         Banner 3, Verdict (fst (validate_python self f))]
   \<and> schematron_passed (fst (validate_file (self\<lparr>p_xsd_schema := s\<rparr>) f))
        = schematron_passed (fst (validate_file self f))
   \<and> schematron_errors (fst (validate_file (self\<lparr>p_xsd_schema := s\<rparr>) f))
        = schematron_errors (fst (validate_file self f))
   \<and> python_passed (fst (validate_file (self\<lparr>p_xsd_schema := s, p_run_schematron := r,
          p_svrl_ns_messages := m1, p_svrl_messages := m2\<rparr>) f))
        = python_passed (fst (validate_file self f))
   \<and> python_errors (fst (validate_file (self\<lparr>p_xsd_schema := s, p_run_schematron := r,
          p_svrl_ns_messages := m1, p_svrl_messages := m2\<rparr>) f))
        = python_errors (fst (validate_file self f))"
proof -
  have py: "(fst (validate_python self f) \<and> snd (validate_python self f) = [])
      = fst (validate_python self f)"
    using validate_python_passed_iff [of self f] by auto
  show ?thesis
    unfolding validate_file_fields validate_file_console py
    by (simp add: validate_schematron_indep validate_python_indep py)
qed

lemma broken_xsd: "validate_xsd broken_pipeline ''a.xml'' = (False, [''Unknown XSD validation error''])"
  by (simp add: validate_xsd_def broken_pipeline_def)

lemma broken_schematron: "validate_schematron broken_pipeline ''a.xml'' = (False, [''Rule 3 failed''])"
  by code_simp

lemma broken_python:
  "validate_python broken_pipeline ''a.xml'' = (False, [''Rule 6 [error]: dup (at /AR)''])"
  by code_simp

theorem C1_witness:
  "\<not> xsd_passed (fst (validate_file broken_pipeline ''a.xml''))
   \<and> xsd_errors (fst (validate_file broken_pipeline ''a.xml'')) = [''Unknown XSD validation error'']
   \<and> \<not> schematron_passed (fst (validate_file broken_pipeline ''a.xml''))
   \<and> schematron_errors (fst (validate_file broken_pipeline ''a.xml'')) = [''Rule 3 failed'']
   \<and> \<not> python_passed (fst (validate_file broken_pipeline ''a.xml''))
   \<and> python_errors (fst (validate_file broken_pipeline ''a.xml''))
        = [''Rule 6 [error]: dup (at /AR)'']
   \<and> snd (validate_file broken_pipeline ''a.xml'')
        = [Banner 1, Verdict False, Banner 2, Verdict False, Banner 3, Verdict False]"
  using C1_all_stages_run [of broken_pipeline "''a.xml''"] broken_xsd broken_schematron
    broken_python
  by simp

text \<open>
  C10: in the record returned by \<open>validate_file\<close>, a stage marked passed has an empty error
  list, for each of the three stages; the XSD and Schematron helpers return \<open>True\<close> only
  together with the empty list, and a non-empty Python error list forces the Python stage
  to failed.
\<close>

theorem C10_passed_implies_no_errors:
  "(xsd_passed (fst (validate_file self f)) \<longrightarrow> xsd_errors (fst (validate_file self f)) = [])
   \<and> (schematron_passed (fst (validate_file self f))
        \<longrightarrow> schematron_errors (fst (validate_file self f)) = [])
   \<and> (python_passed (fst (validate_file self f))
        \<longrightarrow> python_errors (fst (validate_file self f)) = [])
   \<and> (python_errors (fst (validate_file self f)) \<noteq> []
        \<longrightarrow> \<not> python_passed (fst (validate_file self f)))
   \<and> (fst (validate_xsd self f) \<longrightarrow> snd (validate_xsd self f) = [])
   \<and> (fst (validate_schematron self f) \<longrightarrow> snd (validate_schematron self f) = [])"
  unfolding validate_file_fields
  using validate_xsd_passed_empty [of self f] validate_schematron_passed_empty [of self f]
  by simp

theorem C10_witness:
  "xsd_passed (fst (validate_file clean_pipeline ''a.xml''))
   \<and> xsd_errors (fst (validate_file clean_pipeline ''a.xml'')) = []
   \<and> schematron_passed (fst (validate_file clean_pipeline ''a.xml''))
   \<and> schematron_errors (fst (validate_file clean_pipeline ''a.xml'')) = []
   \<and> python_passed (fst (validate_file clean_pipeline ''a.xml''))
   \<and> python_errors (fst (validate_file clean_pipeline ''a.xml'')) = []
   \<and> python_errors (fst (validate_file broken_pipeline ''a.xml'')) \<noteq> []
   \<and> \<not> python_passed (fst (validate_file broken_pipeline ''a.xml''))
   \<and> fst (validate_xsd clean_pipeline ''a.xml'')
   \<and> snd (validate_xsd clean_pipeline ''a.xml'') = []
   \<and> fst (validate_schematron clean_pipeline ''a.xml'')
   \<and> snd (validate_schematron clean_pipeline ''a.xml'') = []"
proof -
  have x: "fst (validate_xsd clean_pipeline ''a.xml'')"
    by (simp add: validate_xsd_def clean_pipeline_def)
  have s: "fst (validate_schematron clean_pipeline ''a.xml'')"
    by (simp add: validate_schematron_def clean_pipeline_def)
  have p: "fst (validate_python clean_pipeline ''a.xml'')"
    by (simp add: validate_python_def clean_pipeline_def)
  have b: "snd (validate_python broken_pipeline ''a.xml'') \<noteq> []"
    by (simp add: validate_python_def broken_pipeline_def)
  have vx: "xsd_passed (fst (validate_file clean_pipeline ''a.xml''))"
    and vs: "schematron_passed (fst (validate_file clean_pipeline ''a.xml''))"
    and vp: "python_passed (fst (validate_file clean_pipeline ''a.xml''))"
    and vb: "python_errors (fst (validate_file broken_pipeline ''a.xml'')) \<noteq> []"
    using x s p b validate_python_passed_iff [of clean_pipeline "''a.xml''"]
    by (simp_all add: validate_file_fields)
  show ?thesis
    using C10_passed_implies_no_errors [of clean_pipeline "''a.xml''"]
      C10_passed_implies_no_errors [of broken_pipeline "''a.xml''"] x s vx vs vp vb
    by blast
qed

section \<open>Reference normalisation and terminal-segment resolution\<close>

lemma py_split_nonempty: "py_split c s \<noteq> []"
  by (induction s) (auto split: list.splits)

lemma py_split_append_sep: "py_split c (p @ c # s) = py_split c p @ py_split c s"
proof (induction p)
  case Nil
  then show ?case by simp
next
  case (Cons x p)
  then show ?case
    using py_split_nonempty [of c p] by (cases "py_split c p") auto
qed

lemma py_split_no_sep: "c \<notin> set s \<Longrightarrow> py_split c s = [s]"
  by (induction s) auto

lemma last_py_split: "c \<notin> set seg \<Longrightarrow> last (py_split c (p @ c # seg)) = seg"
  by (simp add: py_split_append_sep py_split_no_sep)

lemma rstrip_keep:
  assumes "xs \<noteq> []" and "\<not> P (last xs)" and "\<forall>x\<in>set ws. P x"
  shows "rev (dropWhile P (rev (xs @ ws))) = xs"
proof -
  have "dropWhile P (rev ws @ rev xs) = dropWhile P (rev xs)"
    using assms(3) by (simp add: dropWhile_append)
  moreover have "dropWhile P (rev xs) = rev xs"
    using assms(1,2) by (cases xs rule: rev_cases) auto
  ultimately show ?thesis by simp
qed

lemma lstrip_stop: "\<not> P c \<Longrightarrow> dropWhile P (pre @ c # rest) = dropWhile P pre @ c # rest"
  by (simp add: dropWhile_append)

lemma py_strip_surrounding:
  assumes "\<forall>c\<in>set w1. py_isspace c" and "\<forall>c\<in>set w2. py_isspace c"
  shows "py_strip (w1 @ d @ w2) = py_strip d"
proof -
  have l: "dropWhile py_isspace (w1 @ d @ w2) = dropWhile py_isspace (d @ w2)"
    using assms(1) by (simp add: dropWhile_append)
  show ?thesis
  proof (cases "\<forall>c\<in>set d. py_isspace c")
    case True
    then have a: "dropWhile py_isspace (d @ w2) = []" and b: "dropWhile py_isspace d = []"
      using assms(2) by simp_all
    show ?thesis unfolding py_strip_def l a b by simp
  next
    case False
    then obtain x where "x \<in> set d" "\<not> py_isspace x" by blast
    then have "dropWhile py_isspace (d @ w2) = dropWhile py_isspace d @ w2"
      by (rule dropWhile_append1)
    moreover have "dropWhile py_isspace (rev w2 @ rev (dropWhile py_isspace d))
        = dropWhile py_isspace (rev (dropWhile py_isspace d))"
      using assms(2) by (simp add: dropWhile_append)
    ultimately show ?thesis by (simp add: py_strip_def l)
  qed
qed

lemma strip_chars_edges:
  "\<not> prefix [c] (py_strip_chars [c] s) \<and> \<not> suffix [c] (py_strip_chars [c] s)"
proof -
  define Q where "Q = (\<lambda>x. x \<in> set [c])"
  define y where "y = dropWhile Q s"
  define z where "z = dropWhile Q (rev y)"
  have r: "py_strip_chars [c] s = rev z"
    by (simp add: py_strip_chars_def Q_def y_def z_def)
  have hy: "y \<noteq> [] \<Longrightarrow> \<not> Q (hd y)"
    unfolding y_def by (rule hd_dropWhile)
  have hz: "z \<noteq> [] \<Longrightarrow> \<not> Q (hd z)"
    unfolding z_def by (rule hd_dropWhile)
  have zy: "rev z = take (length y - length (takeWhile Q (rev y))) y"
    unfolding z_def by (simp add: dropWhile_eq_drop rev_drop)
  have last_ok: "\<not> suffix [c] (rev z)"
  proof
    assume "suffix [c] (rev z)"
    then obtain p where "rev z = p @ [c]" by (auto simp: suffix_def)
    then have "z = c # rev p" by (metis rev.simps(2) rev_rev_ident rev_append rev_singleton_conv)
    then show False using hz by (simp add: Q_def)
  qed
  have first_ok: "\<not> prefix [c] (rev z)"
  proof
    assume "prefix [c] (rev z)"
    then obtain p where p: "rev z = c # p" by (auto simp: prefix_def)
    then have "y \<noteq> []" using zy by auto
    moreover have "hd y = c" using zy p by (metis hd_take list.sel(1) take_eq_Nil list.distinct(1) not_gr_zero)
    ultimately show False using hy by (simp add: Q_def)
  qed
  show ?thesis using first_ok last_ok r by simp
qed

lemma extract_terminal_segment:
  assumes seg: "seg \<noteq> []" and nosep: "CHR ''/'' \<notin> set seg"
    and nosp: "\<not> py_isspace (last seg)" and ws: "\<forall>c\<in>set w. py_isspace c"
  shows "extract_short_name_from_dest (pre @ ''/'' @ seg @ replicate k CHR ''/'' @ w) = seg"
proof -
  define sl where "sl = replicate k CHR ''/''"
  define Q where "Q = (\<lambda>x. x \<in> set ''/'')"
  define pre' where "pre' = dropWhile py_isspace pre"
  have slash_nosp: "\<not> py_isspace CHR ''/''" by (simp add: py_isspace_def)
  have Qsl: "\<forall>x\<in>set sl. Q x" by (simp add: sl_def Q_def)
  have "last seg \<in> set seg" "hd seg \<in> set seg"
    using seg by simp_all
  then have Qseg: "\<not> Q (last seg)" "\<not> Q (hd seg)"
    using nosep by (auto simp: Q_def)
  have last_nosp: "\<not> py_isspace (last (pre' @ CHR ''/'' # seg @ sl))"
    using seg nosp slash_nosp by (cases k) (simp_all add: sl_def)
  have "py_strip (pre @ CHR ''/'' # seg @ sl @ w) = pre' @ CHR ''/'' # seg @ sl"
    using rstrip_keep [of "pre' @ CHR ''/'' # seg @ sl" py_isspace w] last_nosp ws
    by (simp add: py_strip_def lstrip_stop [where P = py_isspace and c = "CHR ''/''", OF slash_nosp] pre'_def)
  then have n1: "normalize_dest_path (pre @ ''/'' @ seg @ sl @ w)
      = py_strip_chars ''/'' (pre' @ CHR ''/'' # seg @ sl)"
    by (simp add: normalize_dest_path_def)
  have "\<exists>z. dropWhile Q (pre' @ CHR ''/'' # seg @ sl) = z @ sl \<and> z \<noteq> []
      \<and> last z = last seg \<and> last (py_split CHR ''/'' z) = seg"
  proof (cases "\<forall>x\<in>set pre'. Q x")
    case True
    have "dropWhile Q (seg @ sl) = seg @ sl"
      using seg Qseg(2) by (cases seg) auto
    then have "dropWhile Q (pre' @ CHR ''/'' # seg @ sl) = seg @ sl"
      using True by (simp add: dropWhile_append Q_def)
    then show ?thesis using seg nosep by (auto simp: py_split_no_sep)
  next
    case False
    then obtain x where "x \<in> set pre'" "\<not> Q x" by blast
    then have "dropWhile Q (pre' @ CHR ''/'' # seg @ sl)
        = dropWhile Q pre' @ CHR ''/'' # seg @ sl"
      by (rule dropWhile_append1)
    then have "dropWhile Q (pre' @ CHR ''/'' # seg @ sl)
        = (dropWhile Q pre' @ CHR ''/'' # seg) @ sl"
      by simp
    moreover have "last (py_split CHR ''/'' (dropWhile Q pre' @ CHR ''/'' # seg)) = seg"
      using nosep by (rule last_py_split)
    ultimately show ?thesis using seg by auto
  qed
  then obtain z where z: "dropWhile Q (pre' @ CHR ''/'' # seg @ sl) = z @ sl" "z \<noteq> []"
    "last z = last seg" "last (py_split CHR ''/'' z) = seg" by blast
  have "py_strip_chars ''/'' (pre' @ CHR ''/'' # seg @ sl) = z"
    using rstrip_keep [of z Q sl] z(1,2,3) Qseg(1) Qsl
    by (simp add: py_strip_chars_def Q_def)
  then show ?thesis
    using n1 z(4) py_split_nonempty [of "CHR ''/''" z]
    by (simp add: extract_short_name_from_dest_def sl_def)
qed

text \<open>
  C8: normalisation drops surrounding whitespace and leaves no leading or trailing path
  separator; the resolver asks the index only for the last segment of the normalised
  reference. Hence a reference ending in the segment \<open>seg\<close> (possibly followed by
  separators and whitespace) resolves to \<open>index seg\<close> whatever path stands before it, and
  two references with the same final segment resolve alike: the intermediate segments are
  never looked at.
\<close>

theorem C8_terminal_segment_resolution:
  assumes "seg \<noteq> []" and "CHR ''/'' \<notin> set seg" and "\<not> py_isspace (last seg)"
    and "\<forall>c\<in>set w1. py_isspace c" and "\<forall>c\<in>set w2. py_isspace c"
  shows "normalize_dest_path (w1 @ dest @ w2) = normalize_dest_path dest
    \<and> \<not> prefix ''/'' (normalize_dest_path dest)
    \<and> \<not> suffix ''/'' (normalize_dest_path dest)
    \<and> resolve_dest index dest = index (last (py_split CHR ''/'' (normalize_dest_path dest)))
    \<and> extract_short_name_from_dest (pre1 @ ''/'' @ seg @ replicate k CHR ''/'' @ w2) = seg
    \<and> resolve_dest index (pre1 @ ''/'' @ seg) = index seg
    \<and> resolve_dest index (pre1 @ ''/'' @ seg) = resolve_dest index (pre2 @ ''/'' @ seg)"
proof -
  have n: "normalize_dest_path (w1 @ dest @ w2) = normalize_dest_path dest"
    using assms(4,5) by (simp add: normalize_dest_path_def py_strip_surrounding)
  have e: "\<not> prefix ''/'' (normalize_dest_path dest) \<and> \<not> suffix ''/'' (normalize_dest_path dest)"
    unfolding normalize_dest_path_def by (rule strip_chars_edges)
  have r: "resolve_dest index dest = index (last (py_split CHR ''/'' (normalize_dest_path dest)))"
    by (simp add: resolve_dest_def extract_short_name_from_dest_def py_split_nonempty)
  have x: "extract_short_name_from_dest (pre1 @ ''/'' @ seg @ replicate k CHR ''/'' @ w2) = seg"
    using assms(1,2,3,5) by (rule extract_terminal_segment)
  have p: "extract_short_name_from_dest (p @ ''/'' @ seg) = seg" for p
    using extract_terminal_segment [OF assms(1,2,3), of "[]" p 0] by simp
  show ?thesis
    using n e r x p [of pre1] p [of pre2] by (simp add: resolve_dest_def)
qed

theorem C8_witness:
  "normalize_dest_path ('' '' @ ''/a/b/'' @ [CHR 0x0A]) = normalize_dest_path ''/a/b/''
   \<and> extract_short_name_from_dest (''/ECU1/SoC1'' @ ''/'' @ ''Cluster1'' @ ''//'' @ [CHR 0x0A])
       = ''Cluster1''
   \<and> resolve_dest [''Cluster1'' \<mapsto> (3::nat)] (''/ECU1/SoC1'' @ ''/'' @ ''Cluster1'') = Some 3
   \<and> resolve_dest [''Cluster1'' \<mapsto> (3::nat)] (''/ECU1/SoC1'' @ ''/'' @ ''Cluster1'')
       = resolve_dest [''Cluster1'' \<mapsto> (3::nat)] ('' /Wrong/Place'' @ ''/'' @ ''Cluster1'')"
proof -
  have h: "''Cluster1'' \<noteq> []" "CHR ''/'' \<notin> set ''Cluster1''"
    "\<not> py_isspace (last ''Cluster1'')" "\<forall>c\<in>set '' ''. py_isspace c"
    "\<forall>c\<in>set [CHR 0x0A]. py_isspace c"
    by (simp_all add: py_isspace_def)
  have k: "replicate 2 CHR ''/'' = ''//''" by (simp add: numeral_2_eq_2)
  show ?thesis
    using C8_terminal_segment_resolution [OF h, of "''/a/b/''" "[''Cluster1'' \<mapsto> (3::nat)]"
        "''/ECU1/SoC1''" 2 "'' /Wrong/Place''"] k
    by auto
qed

section \<open>Identifier naming\<close>

lemma validate_c_identifier_accepts:
  "fst (validate_c_identifier name)
     = (c_identifier_pattern_match name \<and> name \<notin> set c_keywords)"
  by (simp add: validate_c_identifier_def)

lemma dropWhile_singleton_last:
  assumes "dropWhile P xs = [x]"
  shows "xs \<noteq> [] \<and> last xs = x"
proof -
  have "xs = takeWhile P xs @ [x]"
    using assms takeWhile_dropWhile_id [of P xs] by simp
  then show ?thesis
    by (metis snoc_eq_iff_butlast)
qed

lemma spec_accepted_is_accepted:
  "spec_identifier_accepted name \<Longrightarrow> fst (validate_c_identifier name)"
  by (cases name)
     (auto simp: spec_identifier_accepted_def validate_c_identifier_accepts
        c_identifier_pattern_match_def list_all_iff)

lemma accepted_without_final_newline:
  assumes "fst (validate_c_identifier name)" and "last name \<noteq> CHR 0x0A"
  shows "spec_identifier_accepted name"
proof (cases name)
  case Nil
  with assms show ?thesis
    by (simp add: validate_c_identifier_accepts c_identifier_pattern_match_def)
next
  case (Cons c cs)
  have m: "is_ident_start c"
    and d: "dropWhile is_ident_char cs = [] \<or> dropWhile is_ident_char cs = [CHR 0x0A]"
    and k: "name \<notin> set c_keywords"
    using assms(1) Cons
    by (simp_all add: validate_c_identifier_accepts c_identifier_pattern_match_def)
  have "dropWhile is_ident_char cs \<noteq> [CHR 0x0A]"
  proof
    assume "dropWhile is_ident_char cs = [CHR 0x0A]"
    then have "cs \<noteq> [] \<and> last cs = CHR 0x0A" by (rule dropWhile_singleton_last)
    then show False using assms(2) Cons by simp
  qed
  with d have "list_all is_ident_char cs" by (simp add: list_all_iff)
  with m k Cons show ?thesis by (simp add: spec_identifier_accepted_def)
qed

section \<open>Rule 6: exactly one finding for one duplicated runnable name\<close>

lemma rule_6_loop_append:
  "rule_6_loop doc m (xs @ ys) = rule_6_loop doc m xs @ rule_6_loop doc (rule_6_seen doc m xs) ys"
  by (induction xs arbitrary: m) (auto simp: Let_def split: list.splits option.splits)

lemma rule_6_loop_named:
  "rule_6_loop doc m rs = rule_6_loop doc m (filter (has_short_name doc) rs)"
  by (induction rs arbitrary: m)
     (auto simp: Let_def has_short_name_def split: list.splits option.splits)

lemma rule_6_seen_keeps: "m n = Some p \<Longrightarrow> rule_6_seen doc m xs n = Some p"
proof (induction xs arbitrary: m)
  case Nil
  then show ?case by simp
next
  case (Cons r xs)
  show ?case
  proof (cases "short_names doc r")
    case Nil
    then show ?thesis using Cons by simp
  next
    case (Cons name ns)
    show ?thesis
    proof (cases "m name")
      case None
      then have "(m(name \<mapsto> getpath doc r)) n = Some p"
        using Cons.prems by auto
      then show ?thesis using Cons.IH None \<open>short_names doc r = name # ns\<close> by simp
    next
      case (Some q)
      then show ?thesis using Cons.IH Cons.prems \<open>short_names doc r = name # ns\<close> by simp
    qed
  qed
qed

lemma rule_6_seen_dom:
  "\<forall>r\<in>set xs. has_short_name doc r
     \<Longrightarrow> dom (rule_6_seen doc m xs) = dom m \<union> short_name doc ` set xs"
proof (induction xs arbitrary: m)
  case Nil
  then show ?case by simp
next
  case (Cons r xs)
  then obtain name ns where s: "short_names doc r = name # ns"
    by (cases "short_names doc r") (auto simp: has_short_name_def)
  show ?case
  proof (cases "m name")
    case None
    then show ?thesis using Cons s by (auto simp: short_name_def)
  next
    case (Some p)
    then show ?thesis using Cons s by (auto simp: short_name_def)
  qed
qed

lemma rule_6_fresh_no_findings:
  "\<forall>r\<in>set xs. has_short_name doc r \<Longrightarrow> distinct (map (short_name doc) xs)
     \<Longrightarrow> short_name doc ` set xs \<inter> dom m = {}
     \<Longrightarrow> rule_6_loop doc m xs = []"
proof (induction xs arbitrary: m)
  case Nil
  then show ?case by simp
next
  case (Cons r xs)
  then obtain name ns where s: "short_names doc r = name # ns"
    by (cases "short_names doc r") (auto simp: has_short_name_def)
  have nm: "short_name doc r = name" by (simp add: short_name_def s)
  have none: "m name = None" using Cons.prems(3) nm by auto
  have "short_name doc ` set xs \<inter> dom (m(name \<mapsto> getpath doc r)) = {}"
    using Cons.prems(2,3) nm by auto
  then have "rule_6_loop doc (m(name \<mapsto> getpath doc r)) xs = []"
    using Cons.IH Cons.prems(1,2) by simp
  then show ?case by (simp add: s none Let_def)
qed

lemma py_contains_suffix_part: "py_contains (a @ x) x"
  by (induction a) (auto simp: prefix_def intro: exI [of _ "[]"] | cases x; simp)+

text \<open>
  C4: let the named runnables of the document, in document order, be \<open>A @ r1 # B @ r2 # C\<close>,
  where \<open>r1\<close> and \<open>r2\<close> carry the same name \<open>n\<close> and no other name is repeated. Then rule 6
  emits exactly one finding; it is located at \<open>r2\<close>, the later occurrence, and its message
  ends with the tree path of \<open>r1\<close>, the first occurrence.
\<close>

theorem C4_one_duplicate_finding:
  assumes named: "filter (has_short_name doc) (xp_anywhere doc [''RUNNABLE-ENTITY''])
      = A @ r1 # B @ r2 # C"
    and n1: "short_name doc r1 = n" and n2: "short_name doc r2 = n"
    and dist: "distinct (map (short_name doc) (A @ r1 # B @ C))"
  shows "validate_rule_6 doc
      = [mk_error 6 (rule_6_message n (getpath doc r1)) (getpath doc r2)]
    \<and> length (validate_rule_6 doc) = 1
    \<and> rule_number (hd (validate_rule_6 doc)) = 6
    \<and> xpath (hd (validate_rule_6 doc)) = getpath doc r2
    \<and> py_contains (message (hd (validate_rule_6 doc))) (getpath doc r1)"
proof -
  have all_named: "\<forall>r\<in>set (A @ r1 # B @ r2 # C). has_short_name doc r"
  proof -
    have "\<forall>r\<in>set (filter (has_short_name doc) (xp_anywhere doc [''RUNNABLE-ENTITY''])).
        has_short_name doc r" by simp
    then show ?thesis unfolding named .
  qed
  define m1 where "m1 = rule_6_seen doc Map.empty A"
  define m2 where "m2 = m1(n \<mapsto> getpath doc r1)"
  define m3 where "m3 = rule_6_seen doc m2 B"
  have ne: "short_names doc r1 \<noteq> []" "short_names doc r2 \<noteq> []"
    using all_named by (auto simp: has_short_name_def)
  obtain t1 where s1: "short_names doc r1 = n # t1"
    using ne(1) n1 unfolding short_name_def by (cases "short_names doc r1") auto
  obtain t2 where s2: "short_names doc r2 = n # t2"
    using ne(2) n2 unfolding short_name_def by (cases "short_names doc r2") auto
  have dom1: "dom m1 = short_name doc ` set A"
    unfolding m1_def using all_named by (subst rule_6_seen_dom) auto
  have dom3: "dom m3 = short_name doc ` set A \<union> {n} \<union> short_name doc ` set B"
    unfolding m3_def using all_named dom1 by (subst rule_6_seen_dom) (auto simp: m2_def)
  have fa: "rule_6_loop doc Map.empty A = []"
    using all_named dist by (intro rule_6_fresh_no_findings) auto
  have m1n: "m1 n = None"
    using dom1 dist n1 by (auto simp: domIff [symmetric] simp del: domIff)
  have fb: "rule_6_loop doc m2 B = []"
    using all_named dist dom1 n1 by (intro rule_6_fresh_no_findings) (auto simp: m2_def)
  have m3n: "m3 n = Some (getpath doc r1)"
    unfolding m3_def by (rule rule_6_seen_keeps) (simp add: m2_def)
  have fc: "rule_6_loop doc m3 C = []"
    using all_named dist dom3 n1 by (intro rule_6_fresh_no_findings) auto
  have "validate_rule_6 doc = rule_6_loop doc Map.empty (A @ r1 # B @ r2 # C)"
    unfolding validate_rule_6_def
    by (subst rule_6_loop_named) (simp only: named)
  also have "\<dots> = rule_6_loop doc m1 (r1 # B @ r2 # C)"
    by (simp add: rule_6_loop_append fa m1_def)
  also have "\<dots> = rule_6_loop doc m2 (B @ r2 # C)"
    using s1 m1n by (simp add: m2_def Let_def)
  also have "\<dots> = rule_6_loop doc m3 (r2 # C)"
    by (simp add: rule_6_loop_append fb m3_def)
  also have "\<dots> = [mk_error 6 (rule_6_message n (getpath doc r1)) (getpath doc r2)]"
    using s2 m3n fc by (simp add: Let_def)
  finally have v: "validate_rule_6 doc
      = [mk_error 6 (rule_6_message n (getpath doc r1)) (getpath doc r2)]" .
  have c: "py_contains (rule_6_message n (getpath doc r1)) (getpath doc r1)"
    unfolding rule_6_message_def
    using py_contains_suffix_part
      [of "''Duplicate RUNNABLE-ENTITY SHORT-NAME/@name '' @ sq n
             @ '' found. Previous occurrence(s) at: ''" "getpath doc r1"]
    by simp
  show ?thesis using v c by (simp add: mk_error_def)
qed

lemma doc_duplicate_runnable_named:
  "filter (has_short_name doc_duplicate_runnable)
      (xp_anywhere doc_duplicate_runnable [''RUNNABLE-ENTITY''])
    = [] @ [0, 1] # [[0, 2]] @ [1, 1] # []"
  by code_simp

lemma doc_duplicate_runnable_names:
  "short_name doc_duplicate_runnable [0, 1] = ''Read_Run_0''"
  "short_name doc_duplicate_runnable [1, 1] = ''Read_Run_0''"
  "distinct (map (short_name doc_duplicate_runnable) ([] @ [0, 1] # [[0, 2]] @ []))"
  by code_simp+

lemma doc_duplicate_runnable_paths:
  "getpath doc_duplicate_runnable [0, 1]
     = ''/AR-PACKAGE/APPLICATION-SW-COMPONENT-TYPE[1]/RUNNABLE-ENTITY[1]''"
  "getpath doc_duplicate_runnable [1, 1]
     = ''/AR-PACKAGE/APPLICATION-SW-COMPONENT-TYPE[2]/RUNNABLE-ENTITY''"
  by code_simp+

theorem C4_witness:
  "validate_rule_6 doc_duplicate_runnable
     = [mk_error 6
          (rule_6_message ''Read_Run_0''
             ''/AR-PACKAGE/APPLICATION-SW-COMPONENT-TYPE[1]/RUNNABLE-ENTITY[1]'')
          ''/AR-PACKAGE/APPLICATION-SW-COMPONENT-TYPE[2]/RUNNABLE-ENTITY'']
   \<and> length (validate_rule_6 doc_duplicate_runnable) = 1
   \<and> py_contains (message (hd (validate_rule_6 doc_duplicate_runnable)))
        ''/AR-PACKAGE/APPLICATION-SW-COMPONENT-TYPE[1]/RUNNABLE-ENTITY[1]''"
  using C4_one_duplicate_finding [OF doc_duplicate_runnable_named doc_duplicate_runnable_names]
  unfolding doc_duplicate_runnable_paths by blast

section \<open>Core-id range check\<close>









section \<open>Frequency policy for Linux clusters\<close>

lemma cluster_without_linux_no_findings:
  "cluster_without_linux doc c \<Longrightarrow> rule_76_cluster doc c = []"
proof -
  assume w: "cluster_without_linux doc c"
  have "\<not> list_ex (os_node_is_linux doc) (xp_descendants doc c os_tags)"
    using w
    by (auto simp: cluster_without_linux_def list_ex_iff os_node_is_linux_def
        split: option.splits)
  moreover have "filter (\<lambda>p. py_contains (tag_of doc p) ''Linux'' \<or> py_contains (tag_of doc p) ''LINUX'')
      (descendants doc c) = []"
    using w by (auto simp: cluster_without_linux_def filter_empty_conv)
  ultimately have "\<not> cluster_is_linux doc c"
    by (simp add: cluster_is_linux_def)
  then show ?thesis by (simp add: rule_76_cluster_def)
qed

lemma cluster_at_required_frequency_no_findings:
  assumes "cluster_at_required_frequency doc c"
  shows "rule_76_cluster doc c = []"
proof -
  have "rule_76_frequency_node doc n f = []"
    if "f \<in> set (xp_descendants doc c [''Frequency''])" for n f
    using assms that
    by (auto simp: cluster_at_required_frequency_def rule_76_frequency_node_def
        frequency_value_def Let_def)
  then have "concat (map (rule_76_frequency_node doc n) (xp_descendants doc c [''Frequency''])) = []"
    for n
    by simp
  then show ?thesis
    using assms by (simp add: rule_76_cluster_def cluster_at_required_frequency_def Let_def)
qed

lemma concat_map_all_empty: "\<forall>x\<in>set xs. g x = [] \<Longrightarrow> concat (map g xs) = []"
  by (induction xs) auto

text \<open>
  C7: take a CPU cluster of the document, at any place among the clusters, such that some
  operating-system node below it has a \<^verbatim>\<open>Linux\<close> element below itself and the cluster
  has exactly one \<^verbatim>\<open>Frequency\<close> node; let \<open>fv\<close> be the stripped \<^verbatim>\<open>value\<close> attribute
  of that node or, when that is empty, its stripped text, and let \<open>fv\<close> be non-empty. The
  findings of the rule are those of the clusters before, then those of this cluster, then
  those of the clusters after; this cluster contributes nothing when \<open>fv\<close> reads as the
  integer 1000000000, the invalid-frequency finding when it reads as another integer, and
  the must-be-numeric finding when it does not read as an integer, located at the frequency
  node. When every other cluster either has nothing that marks it as a Linux cluster or is
  at the required frequency, the rule emits for the whole document nothing in the first
  case and exactly one finding, number 76 and located at the frequency node, in the other
  two.
\<close>

theorem C7_linux_frequency_policy:
  assumes clusters: "xp_anywhere doc cpu_cluster_tags = pre @ cluster # post"
    and os: "os \<in> set (xp_descendants doc cluster os_tags)"
    and linux: "xp_descendants doc os [''Linux''] \<noteq> []"
    and freq: "xp_descendants doc cluster [''Frequency''] = [f]"
    and attr: "py_strip (attr_get_default doc f ''value'' []) = a"
    and body: "py_strip (case etext (elem_at doc f) of None \<Rightarrow> [] | Some x \<Rightarrow> x) = t"
    and fv: "(if a = [] then t else a) = fv" and given: "fv \<noteq> []"
    and name: "(case find_descendant doc cluster ''SHORT-NAME'' of
                  None \<Rightarrow> ''unnamed''
                | Some s \<Rightarrow> attr_get_default doc s ''name'' ''unnamed'') = cname"
  shows "(py_int fv = Some 1000000000 \<longrightarrow>
        validate_rule_76_hw_frequency doc
          = concat (map (rule_76_cluster doc) pre) @ concat (map (rule_76_cluster doc) post))
    \<and> (py_int fv = Some v \<and> v \<noteq> 1000000000 \<longrightarrow>
        validate_rule_76_hw_frequency doc
          = concat (map (rule_76_cluster doc) pre)
            @ [mk_error 76 (rule_76_invalid_message cname v) (getpath doc f)]
            @ concat (map (rule_76_cluster doc) post))
    \<and> (py_int fv = None \<longrightarrow>
        validate_rule_76_hw_frequency doc
          = concat (map (rule_76_cluster doc) pre)
            @ [mk_error 76 (rule_76_not_numeric_message cname fv) (getpath doc f)]
            @ concat (map (rule_76_cluster doc) post))
    \<and> ((\<forall>c \<in> set pre \<union> set post.
            cluster_without_linux doc c \<or> cluster_at_required_frequency doc c) \<longrightarrow>
         (py_int fv = Some 1000000000 \<longrightarrow> validate_rule_76_hw_frequency doc = [])
         \<and> (py_int fv \<noteq> Some 1000000000 \<longrightarrow>
               length (validate_rule_76_hw_frequency doc) = 1
               \<and> rule_number (hd (validate_rule_76_hw_frequency doc)) = 76
               \<and> xpath (hd (validate_rule_76_hw_frequency doc)) = getpath doc f)
         \<and> (py_int fv = Some v \<and> v \<noteq> 1000000000 \<longrightarrow>
               validate_rule_76_hw_frequency doc
                 = [mk_error 76 (rule_76_invalid_message cname v) (getpath doc f)]))"
proof -
  define X where "X = (case py_int fv of
       Some freq_int \<Rightarrow>
         if freq_int \<noteq> 1000000000
         then [mk_error 76 (rule_76_invalid_message cname freq_int) (getpath doc f)]
         else []
     | None \<Rightarrow> [mk_error 76 (rule_76_not_numeric_message cname fv) (getpath doc f)])"
  have l: "cluster_is_linux doc cluster"
    using os linux by (auto simp: cluster_is_linux_def os_node_is_linux_def list_ex_iff)
  have v: "frequency_value doc f = fv"
    using attr body fv by (auto simp: frequency_value_def Let_def)
  have n: "rule_76_frequency_node doc cname f = X"
    using given by (simp add: rule_76_frequency_node_def v Let_def X_def)
  have c: "rule_76_cluster doc cluster = X"
    using l freq n name by (simp add: rule_76_cluster_def rule_76_cluster_name_def Let_def)
  have d: "validate_rule_76_hw_frequency doc
      = concat (map (rule_76_cluster doc) pre) @ X @ concat (map (rule_76_cluster doc) post)"
    by (simp add: validate_rule_76_hw_frequency_def clusters c)
  have clean: "validate_rule_76_hw_frequency doc = X"
    if "\<forall>c \<in> set pre \<union> set post.
            cluster_without_linux doc c \<or> cluster_at_required_frequency doc c"
  proof -
    have a: "concat (map (rule_76_cluster doc) pre) = []"
      using that by (intro concat_map_all_empty) (auto intro: cluster_without_linux_no_findings
          cluster_at_required_frequency_no_findings)
    have b: "concat (map (rule_76_cluster doc) post) = []"
      using that by (intro concat_map_all_empty) (auto intro: cluster_without_linux_no_findings
          cluster_at_required_frequency_no_findings)
    show ?thesis by (simp only: d a b append_Nil append_Nil2)
  qed
  have p1: "py_int fv = Some 1000000000 \<longrightarrow>
        validate_rule_76_hw_frequency doc
          = concat (map (rule_76_cluster doc) pre) @ concat (map (rule_76_cluster doc) post)"
    unfolding d by (simp add: X_def)
  have p2: "py_int fv = Some v \<and> v \<noteq> 1000000000 \<longrightarrow>
        validate_rule_76_hw_frequency doc
          = concat (map (rule_76_cluster doc) pre)
            @ [mk_error 76 (rule_76_invalid_message cname v) (getpath doc f)]
            @ concat (map (rule_76_cluster doc) post)"
    unfolding d by (simp add: X_def)
  have p3: "py_int fv = None \<longrightarrow>
        validate_rule_76_hw_frequency doc
          = concat (map (rule_76_cluster doc) pre)
            @ [mk_error 76 (rule_76_not_numeric_message cname fv) (getpath doc f)]
            @ concat (map (rule_76_cluster doc) post)"
    unfolding d by (simp add: X_def)
  have p4: "(\<forall>c \<in> set pre \<union> set post.
            cluster_without_linux doc c \<or> cluster_at_required_frequency doc c) \<longrightarrow>
         (py_int fv = Some 1000000000 \<longrightarrow> validate_rule_76_hw_frequency doc = [])
         \<and> (py_int fv \<noteq> Some 1000000000 \<longrightarrow>
               length (validate_rule_76_hw_frequency doc) = 1
               \<and> rule_number (hd (validate_rule_76_hw_frequency doc)) = 76
               \<and> xpath (hd (validate_rule_76_hw_frequency doc)) = getpath doc f)
         \<and> (py_int fv = Some v \<and> v \<noteq> 1000000000 \<longrightarrow>
               validate_rule_76_hw_frequency doc
                 = [mk_error 76 (rule_76_invalid_message cname v) (getpath doc f)])"
  proof
    assume "\<forall>c \<in> set pre \<union> set post.
            cluster_without_linux doc c \<or> cluster_at_required_frequency doc c"
    then have "validate_rule_76_hw_frequency doc = X" by (rule clean)
    then show "(py_int fv = Some 1000000000 \<longrightarrow> validate_rule_76_hw_frequency doc = [])
         \<and> (py_int fv \<noteq> Some 1000000000 \<longrightarrow>
               length (validate_rule_76_hw_frequency doc) = 1
               \<and> rule_number (hd (validate_rule_76_hw_frequency doc)) = 76
               \<and> xpath (hd (validate_rule_76_hw_frequency doc)) = getpath doc f)
         \<and> (py_int fv = Some v \<and> v \<noteq> 1000000000 \<longrightarrow>
               validate_rule_76_hw_frequency doc
                 = [mk_error 76 (rule_76_invalid_message cname v) (getpath doc f)])"
      by (auto simp: X_def mk_error_def split: option.splits)
  qed
  show ?thesis using p1 p2 p3 p4 by blast
qed

lemma py_int_frequencies:
  "py_int ''2000000000'' = Some 2000000000"
  "py_int ''1000000000'' = Some 1000000000"
  by (simp_all add: py_int_def int_isspace_def parse_nat_def is_digit_def digit_val_def
      too_many_digits_def int_max_str_digits_def)

lemma py_strip_frequencies:
  "py_strip '' 2000000000 '' = ''2000000000''"
  "py_strip ''2000000000'' = ''2000000000''"
  "py_strip ''1000000000'' = ''1000000000''"
  "py_strip [] = []"
  by (simp_all add: py_strip_def py_isspace_def)

lemma doc_mixed_clusters_shape:
  "xp_anywhere (doc_mixed_clusters fa ft) cpu_cluster_tags
     = [[0, 1, 1]] @ [0, 1, 2] # [[0, 1, 3]]"
  "[0, 1, 2, 1] \<in> set (xp_descendants (doc_mixed_clusters fa ft) [0, 1, 2] os_tags)"
  "xp_descendants (doc_mixed_clusters fa ft) [0, 1, 2, 1] [''Linux''] \<noteq> []"
  "xp_descendants (doc_mixed_clusters fa ft) [0, 1, 2] [''Frequency''] = [[0, 1, 2, 2, 0, 0]]"
  by (simp_all add: doc_mixed_clusters_def xp_anywhere_def xp_descendants_def descendants_def
      tag_of_def elem_at_def cpu_cluster_tags_def os_tags_def)

lemma doc_mixed_clusters_name:
  "(case find_descendant (doc_mixed_clusters fa ft) [0, 1, 2] ''SHORT-NAME'' of
      None \<Rightarrow> ''unnamed''
    | Some s \<Rightarrow> attr_get_default (doc_mixed_clusters fa ft) s ''name'' ''unnamed'')
   = ''Cluster_L''"
  by (simp add: doc_mixed_clusters_def find_descendant_def xp_descendants_def descendants_def
      tag_of_def elem_at_def attr_get_default_def attr_get_def)

lemma doc_mixed_clusters_others:
  "\<forall>c \<in> set [[0, 1, 1]] \<union> set [[0, 1, 3]].
     cluster_without_linux (doc_mixed_clusters fa ft) c
     \<or> cluster_at_required_frequency (doc_mixed_clusters fa ft) c"
proof -
  have a: "cluster_without_linux (doc_mixed_clusters fa ft) [0, 1, 1]"
    by (simp add: doc_mixed_clusters_def cluster_without_linux_def xp_descendants_def
        descendants_def tag_of_def elem_at_def os_tags_def)
  have "xp_descendants (doc_mixed_clusters fa ft) [0, 1, 3] [''Frequency''] = [[0, 1, 3, 2, 0, 0]]"
    by (simp add: doc_mixed_clusters_def xp_descendants_def descendants_def tag_of_def
        elem_at_def)
  moreover have "attr_get_default (doc_mixed_clusters fa ft) [0, 1, 3, 2, 0, 0] ''value'' []
      = ''1000000000''"
    by (simp add: doc_mixed_clusters_def attr_get_default_def attr_get_def elem_at_def)
  ultimately have b: "cluster_at_required_frequency (doc_mixed_clusters fa ft) [0, 1, 3]"
    by (simp add: cluster_at_required_frequency_def Let_def py_strip_frequencies
        py_int_frequencies)
  show ?thesis using a b by simp
qed

lemma doc_mixed_clusters_path:
  "getpath (doc_mixed_clusters fa ft) [0, 1, 2, 2, 0, 0]
     = ''/AR-PACKAGE/ECUs/SoCs/CPU_Cluster[2]/ARMV8-Family/CortexA72/Frequency''"
  by code_simp

lemma doc_mixed_clusters_frequency:
  "attr_get_default (doc_mixed_clusters fa ft) [0, 1, 2, 2, 0, 0] ''value'' []
     = (case map_of fa ''value'' of Some v \<Rightarrow> v | None \<Rightarrow> [])"
  "etext (elem_at (doc_mixed_clusters fa ft) [0, 1, 2, 2, 0, 0]) = ft"
  by (simp_all add: doc_mixed_clusters_def attr_get_default_def attr_get_def elem_at_def)

lemma doc_mixed_clusters_values:
  "py_strip (attr_get_default (doc_mixed_clusters [(''value'', ''2000000000'')] None)
      [0, 1, 2, 2, 0, 0] ''value'' []) = ''2000000000''"
  "py_strip (case etext (elem_at (doc_mixed_clusters [(''value'', ''2000000000'')] None)
      [0, 1, 2, 2, 0, 0]) of None \<Rightarrow> [] | Some x \<Rightarrow> x) = []"
  "py_strip (attr_get_default (doc_mixed_clusters [] (Some '' 2000000000 ''))
      [0, 1, 2, 2, 0, 0] ''value'' []) = []"
  "py_strip (case etext (elem_at (doc_mixed_clusters [] (Some '' 2000000000 ''))
      [0, 1, 2, 2, 0, 0]) of None \<Rightarrow> [] | Some x \<Rightarrow> x) = ''2000000000''"
  "py_strip (attr_get_default (doc_mixed_clusters [(''value'', ''1000000000'')] None)
      [0, 1, 2, 2, 0, 0] ''value'' []) = ''1000000000''"
  "py_strip (case etext (elem_at (doc_mixed_clusters [(''value'', ''1000000000'')] None)
      [0, 1, 2, 2, 0, 0]) of None \<Rightarrow> [] | Some x \<Rightarrow> x) = []"
  unfolding doc_mixed_clusters_frequency by (simp_all add: py_strip_frequencies)

theorem C7_witness:
  "validate_rule_76_hw_frequency (doc_mixed_clusters [(''value'', ''2000000000'')] None)
     = [mk_error 76 (rule_76_invalid_message ''Cluster_L'' 2000000000)
          ''/AR-PACKAGE/ECUs/SoCs/CPU_Cluster[2]/ARMV8-Family/CortexA72/Frequency'']
   \<and> validate_rule_76_hw_frequency (doc_mixed_clusters [] (Some '' 2000000000 ''))
     = [mk_error 76 (rule_76_invalid_message ''Cluster_L'' 2000000000)
          ''/AR-PACKAGE/ECUs/SoCs/CPU_Cluster[2]/ARMV8-Family/CortexA72/Frequency'']
   \<and> validate_rule_76_hw_frequency (doc_mixed_clusters [(''value'', ''1000000000'')] None) = []"
proof -
  have a: "(if ''2000000000'' = [] then [] else ''2000000000'') = ''2000000000''" by simp
  have b: "(if ([] :: string) = [] then ''2000000000'' else []) = ''2000000000''" by simp
  have c: "(if ''1000000000'' = [] then [] else ''1000000000'') = ''1000000000''" by simp
  have ne: "''2000000000'' \<noteq> []" "''1000000000'' \<noteq> []" by simp_all
  note t1 = C7_linux_frequency_policy [OF doc_mixed_clusters_shape
      doc_mixed_clusters_values(1,2) a ne(1) doc_mixed_clusters_name, of 2000000000,
      THEN conjunct2, THEN conjunct2, THEN conjunct2, THEN mp, OF doc_mixed_clusters_others]
  note t2 = C7_linux_frequency_policy [OF doc_mixed_clusters_shape
      doc_mixed_clusters_values(3,4) b ne(1) doc_mixed_clusters_name, of 2000000000,
      THEN conjunct2, THEN conjunct2, THEN conjunct2, THEN mp, OF doc_mixed_clusters_others]
  note t3 = C7_linux_frequency_policy [OF doc_mixed_clusters_shape
      doc_mixed_clusters_values(5,6) c ne(2) doc_mixed_clusters_name, of 0,
      THEN conjunct2, THEN conjunct2, THEN conjunct2, THEN mp, OF doc_mixed_clusters_others]
  show ?thesis
    using t1 t2 t3 unfolding py_int_frequencies doc_mixed_clusters_path by simp
qed

section \<open>Port cardinality\<close>
























section \<open>Existence and direction of operation references\<close>















section \<open>The naming rules share one decision\<close>

lemma naming_check_decision:
  "(naming_check doc rule_no label elem = [])
     = (short_names doc elem = [] \<or> fst (validate_c_identifier (short_name doc elem)))"
  by (cases "short_names doc elem")
     (auto simp: naming_check_def short_name_def split: prod.splits)

lemma naming_check_same_decision:
  "(naming_check doc rule_no label elem = []) = (naming_check doc rule_no' label' elem = [])"
  by (simp add: naming_check_decision)

text \<open>
  C9: the claim asks for acceptance exactly when the whole name matches
  \<^verbatim>\<open>[A-Za-z_][A-Za-z0-9_]*\<close> and is no C keyword. The shared helper accepts the name
  \<^verbatim>\<open>abc\<close> followed by a line feed, which does not match in full (the pattern's
  \<^verbatim>\<open>$\<close> also holds before a final line feed), and so the naming rules for runnables,
  ECUs and SoCs report nothing for a document that carries this name.
\<close>

theorem C9_trailing_newline_accepted:
  "validate_c_identifier (''abc'' @ [CHR 0x0A]) = (True, [])
   \<and> \<not> spec_identifier_accepted (''abc'' @ [CHR 0x0A])
   \<and> short_names doc_newline_names [0, 1] = [''abc'' @ [CHR 0x0A]]
   \<and> validate_rule_7 doc_newline_names = []
   \<and> validate_rule_44 doc_newline_names = []
   \<and> validate_rule_46 doc_newline_names = []"
  by code_simp

end
